theory Spec2Isabelle
  imports Main
begin

section \<open>The upload helper: src/utils/uploadFile.ts\<close>

text \<open>
  A browser \<open>File\<close>: the helper reads its \<open>name\<close> and hands the whole object to the
  storage SDK, which reads the bytes.
\<close>

record File =
  file_name :: string
  file_bytes :: "nat list"

record UploadFileProps =
  props_file :: File
  props_directory :: string

datatype error = StorageWriteError | RemoteCreateError

text \<open>
  The collaborators the helper calls, none of them code of this repository:
  \<^item> \<open>uuidv4\<close>: the identifier generator; \<open>uuidv4 env k\<close> is what call number \<open>k\<close> returns;
  \<^item> \<open>uploadBytes\<close>: the storage write, given the path of the reference and the file; it
    rejects, or resolves to a snapshot of which the helper reads \<open>metadata.fullPath\<close>;
  \<^item> \<open>NEXT_PUBLIC_FIREBASE_STORAGE_BUCKET\<close>: the configured bucket;
  \<^item> \<open>create\<close>: the remote \<open>products.create\<close> procedure, which rejects or resolves.
\<close>

record CreateProductDTO =
  name :: string
  description :: string
  images :: "string list"

record env =
  uuidv4 :: "nat \<Rightarrow> string"
  uploadBytes :: "string \<Rightarrow> File \<Rightarrow> error + string"
  NEXT_PUBLIC_FIREBASE_STORAGE_BUCKET :: string
  create :: "CreateProductDTO \<Rightarrow> error + unit"

text \<open>
  JavaScript's \<open>String.prototype.split\<close> with a one-character separator: the pieces between
  the separators, in order; a string without the separator is its own single piece, and the
  empty string gives one empty piece.
\<close>

fun string_split :: "char \<Rightarrow> string \<Rightarrow> string list" where
  "string_split sep [] = [[]]"
| "string_split sep (c # cs) =
     (if c = sep then [] # string_split sep cs
      else (case string_split sep cs of
              [] \<Rightarrow> [[c]]
            | w # ws \<Rightarrow> (c # w) # ws))"

text \<open>\<open>Array.prototype.pop\<close>: the last element, \<open>undefined\<close> (here \<open>None\<close>) on an empty array.\<close>

fun pop :: "'a list \<Rightarrow> 'a option" where
  "pop [] = None"
| "pop [x] = Some x"
| "pop (x # y # ys) = pop (y # ys)"

text \<open>A value interpolated into a template literal: \<open>undefined\<close> prints as that word.\<close>

definition interpolate :: "string option \<Rightarrow> string" where
  "interpolate v = (case v of None \<Rightarrow> ''undefined'' | Some s \<Rightarrow> s)"

text \<open>
  The path of \<open>storageRef\<close>: the template literal of lines 20 to 23, with \<open>uuid\<close> the value
  that this call's \<open>uuidv4()\<close> returned.
\<close>

definition storageRef :: "string \<Rightarrow> UploadFileProps \<Rightarrow> string" where
  "storageRef uuid props =
     props_directory props @ ''/'' @ uuid @ ''.'' @
       interpolate (pop (string_split (CHR ''.'') (file_name (props_file props))))"

text \<open>
  \<open>uploadFile\<close>: a rejected write rejects the returned promise (\<open>Inl\<close>); otherwise the URL is
  built from the bucket and the path the store confirmed.
\<close>

definition uploadFile :: "env \<Rightarrow> string \<Rightarrow> UploadFileProps \<Rightarrow> error + string" where
  "uploadFile e uuid props =
     (case uploadBytes e (storageRef uuid props) (props_file props) of
        Inl err \<Rightarrow> Inl err
      | Inr filePath \<Rightarrow>
          Inr (''https://storage.googleapis.com/'' @ NEXT_PUBLIC_FIREBASE_STORAGE_BUCKET e
                 @ ''/'' @ filePath))"

section \<open>The session gate of the two pages\<close>

text \<open>
  \<open>getServerSideProps\<close> of \<open>src/pages/nuevo-producto.tsx\<close> and of the home page. The
  session resolver \<open>getServerAuthSession\<close> is a collaborator: it yields the session of the
  request, or \<open>null\<close> (here \<open>None\<close>). The result is either a redirect instruction or
  the props of the page.
\<close>

record 'u Session =
  user :: 'u

record redirect =
  destination :: string
  permanent :: bool

datatype 'u GetServerSidePropsResult = Redirect redirect | Props 'u

definition getServerSideProps ::
  "('c \<Rightarrow> 'u Session option) \<Rightarrow> 'c \<Rightarrow> 'u GetServerSidePropsResult" where
  "getServerSideProps getServerAuthSession ctx =
     (case getServerAuthSession ctx of
        None \<Rightarrow> Redirect \<lparr>destination = ''/ingresar'', permanent = False\<rparr>
      | Some session \<Rightarrow> Props (user session))"

definition home_getServerSideProps ::
  "('c \<Rightarrow> 'u Session option) \<Rightarrow> 'c \<Rightarrow> 'u GetServerSidePropsResult" where
  "home_getServerSideProps getServerAuthSession ctx =
     (case getServerAuthSession ctx of
        None \<Rightarrow> Redirect \<lparr>destination = ''/ingresar'', permanent = False\<rparr>
      | Some session \<Rightarrow> Props (user session))"

section \<open>Promise.all\<close>

text \<open>
  \<open>onSubmit\<close> joins the uploads with \<open>Promise.all\<close>. The uploads are issued in the order of
  the file list and settle in an order the network decides: a schedule lists the indices of
  the promises in the order in which they settle. The join keeps one slot for each promise.
  When promise \<open>i\<close> fulfils, its value is written into slot \<open>i\<close>, and once every slot has been
  written the join fulfils with the slots in index order. When a promise rejects, the join
  rejects with that reason. A join that has settled stays as it is, and a promise settles
  once: a second entry of the schedule for the same index, or an index that names no
  promise, changes nothing.
\<close>

record 'a join =
  slots :: "'a option list"
  settled :: "(error + 'a list) option"

definition settle :: "(error + 'a list) \<Rightarrow> 'a join \<Rightarrow> 'a join" where
  "settle r j = (case settled j of None \<Rightarrow> j\<lparr>settled := Some r\<rparr> | Some _ \<Rightarrow> j)"

definition resolveElement :: "nat \<Rightarrow> 'a \<Rightarrow> 'a join \<Rightarrow> 'a join" where
  "resolveElement i v j =
     (if i < length (slots j) \<and> slots j ! i = None then
        (let j' = j\<lparr>slots := (slots j)[i := Some v]\<rparr>
         in case those (slots j') of
              None \<Rightarrow> j'
            | Some vs \<Rightarrow> settle (Inr vs) j')
      else j)"

definition settleElement :: "(error + 'a) list \<Rightarrow> 'a join \<Rightarrow> nat \<Rightarrow> 'a join" where
  "settleElement promises j i =
     (if i < length promises then
        (case promises ! i of
           Inl err \<Rightarrow> settle (Inl err) j
         | Inr v \<Rightarrow> resolveElement i v j)
      else j)"

definition initial_join :: "nat \<Rightarrow> 'a join" where
  "initial_join n =
     \<lparr>slots = replicate n None, settled = (if n = 0 then Some (Inr []) else None)\<rparr>"

text \<open>The state of the joined promise after the schedule: \<open>None\<close> while it is pending.\<close>

definition Promise_all :: "(error + 'a) list \<Rightarrow> nat list \<Rightarrow> (error + 'a list) option" where
  "Promise_all promises schedule =
     settled (foldl (settleElement promises) (initial_join (length promises)) schedule)"

section \<open>The new-product page: src/pages/nuevo-producto.tsx\<close>

text \<open>
  The state of the page and what it has done so far: the three \<open>useState\<close> cells, the values
  of the two form fields, and the calls made to the collaborators (toasts shown, events
  tracked, routes pushed, uploads issued, mutations sent).
\<close>

record form_values =
  field_name :: string
  field_description :: string

datatype toast = Success string | Failure string

record page =
  files :: "File list"
  loading :: bool
  fileError :: "string option"
  form :: form_values
  toasts :: "toast list"
  tracked :: "string list"
  pushed :: "string list"
  uploads :: "UploadFileProps list"
  mutations :: "CreateProductDTO list"

text \<open>\<open>reset()\<close> of the form: no default values are configured, so both fields are emptied.\<close>

definition reset :: "page \<Rightarrow> page" where
  "reset st = st\<lparr>form := \<lparr>field_name = [], field_description = []\<rparr>\<rparr>"

text \<open>The two callbacks of \<open>createProductMutation\<close>, lines 88 to 99.\<close>

definition onSuccess :: "page \<Rightarrow> page" where
  "onSuccess st =
     (let st1 = st\<lparr>loading := False\<rparr>;
          st2 = st1\<lparr>tracked := tracked st1 @ [''Product created'']\<rparr>;
          st3 = st2\<lparr>toasts := toasts st2
                   @ [Success (''Producto creado con '' @ [CHR 0xC3, CHR 0xA9] @ ''xito'')]\<rparr>;
          st4 = st3\<lparr>files := []\<rparr>;
          st5 = reset st4
      in st5\<lparr>pushed := pushed st5 @ [''/mis-productos'']\<rparr>)"

definition onError :: "page \<Rightarrow> page" where
  "onError st =
     (let st1 = st\<lparr>loading := False\<rparr>
      in st1\<lparr>toasts := toasts st1 @ [Failure ''Error al crear el producto'']\<rparr>)"

text \<open>
  \<open>createProductMutation.mutate\<close>: the remote procedure is called with the input, and the
  callback of its outcome runs.
\<close>

definition mutate :: "env \<Rightarrow> CreateProductDTO \<Rightarrow> page \<Rightarrow> page" where
  "mutate e input st =
     (let st1 = st\<lparr>mutations := mutations st @ [input]\<rparr>
      in case create e input of
           Inl _ \<Rightarrow> onError st1
         | Inr _ \<Rightarrow> onSuccess st1)"

text \<open>
  How a run of \<open>onSubmit\<close> ends: it returns, its promise rejects with the reason thrown at
  the \<open>await\<close>, or it stays suspended at the \<open>await\<close> because the join never settles. Each
  carries the state of the page at that point.
\<close>

datatype outcome = Returned page | Threw error page | Suspended page

fun final :: "outcome \<Rightarrow> page" where
  "final (Returned st) = st"
| "final (Threw _ st) = st"
| "final (Suspended st) = st"

text \<open>
  \<open>onSubmit\<close>, lines 102 to 118. \<open>files.map\<close> calls \<open>uploadFile\<close> once for each file, in order
  (so call \<open>i\<close> draws identifier \<open>i\<close>), before anything is awaited.
\<close>

definition onSubmit :: "env \<Rightarrow> nat list \<Rightarrow> page \<Rightarrow> form_values \<Rightarrow> outcome" where
  "onSubmit e schedule st data =
     (let st1 = st\<lparr>loading := True\<rparr>
      in if length (files st1) = 0 then
           (let st2 = st1\<lparr>loading := False\<rparr>
            in Returned (st2\<lparr>fileError := Some ''Debes subir al menos una imagen''\<rparr>))
         else
           (let calls = map (\<lambda>f. \<lparr>props_file = f, props_directory = ''products''\<rparr>) (files st1);
                st2 = st1\<lparr>uploads := uploads st1 @ calls\<rparr>;
                promises = map (\<lambda>(i, props). uploadFile e (uuidv4 e i) props) (enumerate 0 calls)
            in case Promise_all promises schedule of
                 None \<Rightarrow> Suspended st2
               | Some (Inl err) \<Rightarrow> Threw err st2
               | Some (Inr urls) \<Rightarrow>
                   Returned (mutate e \<lparr>name = field_name data, description = field_description data,
                                       images = urls\<rparr> st2)))"

text \<open>What the rendered form shows of the state, lines 155 to 197.\<close>

definition dropzone_disabled :: "page \<Rightarrow> bool" where
  "dropzone_disabled st = loading st"

definition button_loading :: "page \<Rightarrow> bool" where
  "button_loading st = loading st"

definition shown_fileError :: "page \<Rightarrow> string option" where
  "shown_fileError st = fileError st"

section \<open>Sample inputs\<close>

text \<open>
  A store that confirms every write under the path it was given, a generator whose
  identifiers differ from call to call, and a remote procedure that accepts every product;
  then the same collaborators with a store that refuses the file \<open>b.png\<close>.
\<close>

definition demo_uuidv4 :: "nat \<Rightarrow> string" where
  "demo_uuidv4 k = ''id-'' @ replicate k (CHR ''x'')"

definition demo_env :: env where
  "demo_env = \<lparr>uuidv4 = demo_uuidv4, uploadBytes = (\<lambda>path f. Inr path),
     NEXT_PUBLIC_FIREBASE_STORAGE_BUCKET = ''bucket'', create = (\<lambda>input. Inr ())\<rparr>"

definition failing_env :: env where
  "failing_env = demo_env\<lparr>uploadBytes :=
     (\<lambda>path f. if file_name f = ''b.png'' then Inl StorageWriteError else Inr path)\<rparr>"

definition demo_files :: "File list" where
  "demo_files = [\<lparr>file_name = ''a.png'', file_bytes = [1]\<rparr>,
                 \<lparr>file_name = ''b.png'', file_bytes = [2]\<rparr>,
                 \<lparr>file_name = ''c.jpeg'', file_bytes = [3]\<rparr>]"

definition demo_form :: form_values where
  "demo_form = \<lparr>field_name = ''Bicicleta'', field_description = ''Casi nueva''\<rparr>"

definition demo_page :: page where
  "demo_page = \<lparr>files = demo_files, loading = False, fileError = None, form = demo_form,
     toasts = [], tracked = [], pushed = [], uploads = [], mutations = []\<rparr>"

definition no_session :: "string \<Rightarrow> string Session option" where
  "no_session ctx = None"

section \<open>Invariants of the join\<close>

text \<open>
  When every promise fulfils, with values \<open>vs\<close>, and \<open>D\<close> is the set of indices the schedule
  has reached so far, the slots hold the values of exactly the promises in \<open>D\<close>, each at its
  own index, and the join has fulfilled if and only if \<open>D\<close> covers every index.
\<close>

definition filled :: "'a list \<Rightarrow> nat set \<Rightarrow> 'a option list" where
  "filled vs D = map (\<lambda>i. if i \<in> D then Some (vs ! i) else None) [0..<length vs]"

definition fulfilling :: "'a list \<Rightarrow> nat set \<Rightarrow> 'a join \<Rightarrow> bool" where
  "fulfilling vs D j \<longleftrightarrow>
     slots j = filled vs D \<and>
     settled j = (if {..<length vs} \<subseteq> D then Some (Inr vs) else None)"

text \<open>
  When promise \<open>k\<close> rejects, slot \<open>k\<close> is never written, so the join never fulfils; and a
  join that has rejected stays rejected.
\<close>

definition blocked :: "(error + 'a) list \<Rightarrow> nat \<Rightarrow> 'a join \<Rightarrow> bool" where
  "blocked promises k j \<longleftrightarrow>
     length (slots j) = length promises \<and> slots j ! k = None \<and>
     (case settled j of Some (Inr _) \<Rightarrow> False | _ \<Rightarrow> True)"

definition rejected :: "'a join \<Rightarrow> bool" where
  "rejected j \<longleftrightarrow> (case settled j of Some (Inl _) \<Rightarrow> True | _ \<Rightarrow> False)"

lemmas demo_defs = demo_env_def failing_env_def demo_page_def demo_files_def demo_form_def
  demo_uuidv4_def

lemmas upload_defs = uploadFile_def storageRef_def interpolate_def

lemmas join_defs = Promise_all_def initial_join_def settleElement_def resolveElement_def
  settle_def

section \<open>Splitting a file name\<close>

lemma string_split_not_Nil: "string_split sep s \<noteq> []"
  by (induction s) (auto split: list.splits)

lemma pop_last: "xs \<noteq> [] \<Longrightarrow> pop xs = Some (last xs)"
  by (induction xs rule: pop.induct) auto

lemma string_split_without: "sep \<notin> set s \<Longrightarrow> string_split sep s = [s]"
  by (induction s) auto

lemma string_split_append:
  "string_split sep (pre @ sep # rest) = string_split sep pre @ string_split sep rest"
proof (induction pre)
  case Nil
  then show ?case by simp
next
  case (Cons c pre)
  then show ?case
    by (cases "string_split sep pre") (auto simp: string_split_not_Nil)
qed

lemma last_string_split_append:
  "sep \<notin> set ext \<Longrightarrow> last (string_split sep (pre @ sep # ext)) = ext"
  by (simp add: string_split_append string_split_not_Nil string_split_without)

lemma last_string_split_free: "sep \<notin> set (last (string_split sep s))"
proof (induction s)
  case Nil
  then show ?case by simp
next
  case (Cons c s)
  then show ?case
    by (cases "string_split sep s") (auto simp: string_split_not_Nil split: list.splits)
qed

lemma extension_eq:
  "interpolate (pop (string_split sep s)) = last (string_split sep s)"
  by (simp add: interpolate_def pop_last string_split_not_Nil)

lemma last_sep_unique:
  fixes sep :: char
  assumes "a @ sep # x = b @ sep # y" and "sep \<notin> set x" and "sep \<notin> set y"
  shows "a = b \<and> x = y"
proof -
  have "last (string_split sep (a @ sep # x)) = x" using assms(2) by (rule last_string_split_append)
  moreover have "last (string_split sep (b @ sep # y)) = y" using assms(3) by (rule last_string_split_append)
  ultimately have "x = y" using assms(1) by simp
  with assms(1) show ?thesis by simp
qed


section \<open>The join keeps the order of issue\<close>

lemma those_eq_Some: "those xs = Some ys \<longleftrightarrow> xs = map Some ys"
  by (induction xs arbitrary: ys) (auto split: option.splits)

lemma those_None_mem: "None \<in> set xs \<Longrightarrow> those xs = None"
  by (induction xs) (auto split: option.splits)

lemma length_filled: "length (filled vs D) = length vs"
  by (simp add: filled_def)

lemma nth_filled: "i < length vs \<Longrightarrow> filled vs D ! i = (if i \<in> D then Some (vs ! i) else None)"
  by (simp add: filled_def)

lemma filled_update:
  "i < length vs \<Longrightarrow> (filled vs D)[i := Some (vs ! i)] = filled vs (insert i D)"
  by (rule nth_equalityI) (auto simp: length_filled nth_filled nth_list_update)

lemma filled_insert_out: "\<not> i < length vs \<Longrightarrow> filled vs (insert i D) = filled vs D"
  by (rule nth_equalityI) (auto simp: length_filled nth_filled)

lemma those_filled:
  "those (filled vs D) = (if {..<length vs} \<subseteq> D then Some vs else None)"
proof (cases "{..<length vs} \<subseteq> D")
  case True
  have "filled vs D = map Some vs"
    by (rule nth_equalityI) (use True in \<open>auto simp: length_filled nth_filled\<close>)
  then show ?thesis using True by (simp add: those_eq_Some)
next
  case False
  then obtain i where "i < length vs" "i \<notin> D" by auto
  then have "filled vs D ! i = None" by (simp add: nth_filled)
  then have "None \<in> set (filled vs D)"
    using \<open>i < length vs\<close> by (metis length_filled nth_mem)
  then show ?thesis using False by (simp add: those_None_mem)
qed

lemma fulfilling_initial: "fulfilling vs {} (initial_join (length vs))"
  unfolding fulfilling_def initial_join_def
  by (auto simp: filled_def map_replicate_const intro: nth_equalityI)

lemma fulfilling_step:
  assumes "fulfilling vs D j"
  shows "fulfilling vs (insert i D) (settleElement (map Inr vs) j i)"
proof (cases "i < length vs")
  case False
  then show ?thesis using assms
    by (auto simp: fulfilling_def settleElement_def filled_insert_out)
next
  case True
  show ?thesis
  proof (cases "i \<in> D")
    case True
    then have "insert i D = D" by auto
    moreover have "slots j ! i \<noteq> None"
      using assms True \<open>i < length vs\<close> by (simp add: fulfilling_def nth_filled)
    ultimately show ?thesis using assms \<open>i < length vs\<close>
      by (auto simp: settleElement_def resolveElement_def)
  next
    case False
    have s: "slots j = filled vs D" and t: "settled j = (if {..<length vs} \<subseteq> D then Some (Inr vs) else None)"
      using assms by (simp_all add: fulfilling_def)
    have "\<not> {..<length vs} \<subseteq> D" using False True by auto
    then have t': "settled j = None" using t by simp
    have "slots j ! i = None" using s False True by (simp add: nth_filled)
    then show ?thesis using True s t'
      by (simp add: settleElement_def resolveElement_def length_filled filled_update
          those_filled fulfilling_def settle_def Let_def)
  qed
qed

lemma fulfilling_foldl:
  "fulfilling vs D j \<Longrightarrow>
   fulfilling vs (D \<union> set schedule) (foldl (settleElement (map Inr vs)) j schedule)"
proof (induction schedule arbitrary: D j)
  case Nil
  then show ?case by simp
next
  case (Cons i schedule)
  from fulfilling_step [OF Cons.prems, of i]
  have "fulfilling vs (insert i D \<union> set schedule)
          (foldl (settleElement (map Inr vs)) (settleElement (map Inr vs) j i) schedule)"
    by (rule Cons.IH)
  then show ?case by simp
qed

lemma Promise_all_fulfilled:
  assumes "{..<length vs} \<subseteq> set schedule"
  shows "Promise_all (map Inr vs) schedule = Some (Inr vs)"
proof -
  have "fulfilling vs ({} \<union> set schedule)
          (foldl (settleElement (map Inr vs)) (initial_join (length vs)) schedule)"
    using fulfilling_initial by (rule fulfilling_foldl)
  then show ?thesis using assms by (simp add: Promise_all_def fulfilling_def)
qed

section \<open>One rejection rejects the join\<close>

lemma blocked_step:
  assumes "blocked promises k j" and "k < length promises" and "promises ! k = Inl err"
  shows "blocked promises k (settleElement promises j i)"
proof (cases "i < length promises")
  case False
  then show ?thesis using assms(1) by (simp add: settleElement_def)
next
  case True
  show ?thesis
  proof (cases "promises ! i")
    case (Inl err')
    then show ?thesis using assms(1) True
      by (auto simp: settleElement_def settle_def blocked_def split: option.splits sum.splits)
  next
    case (Inr v)
    then have ik: "i \<noteq> k" using assms(3) by auto
    have len: "length (slots j) = length promises" and k: "slots j ! k = None"
      using assms(1) by (simp_all add: blocked_def)
    have "(slots j)[i := Some v] ! k = None" using ik k by simp
    then have "None \<in> set ((slots j)[i := Some v])"
      using assms(2) len by (metis length_list_update nth_mem)
    then have "those ((slots j)[i := Some v]) = None" by (rule those_None_mem)
    then show ?thesis using assms(1) True Inr ik
      by (auto simp: settleElement_def resolveElement_def blocked_def Let_def)
  qed
qed

lemma blocked_foldl:
  assumes "k < length promises" and "promises ! k = Inl err"
  shows "blocked promises k j \<Longrightarrow> blocked promises k (foldl (settleElement promises) j schedule)"
proof (induction schedule arbitrary: j)
  case Nil
  then show ?case by simp
next
  case (Cons i schedule)
  have "blocked promises k (settleElement promises j i)"
    using Cons.prems assms by (rule blocked_step)
  then show ?case using Cons.IH by simp
qed

lemma blocked_initial:
  "k < length promises \<Longrightarrow> blocked promises k (initial_join (length promises))"
  by (auto simp: blocked_def initial_join_def)

lemma Promise_all_never_fulfilled:
  assumes "k < length promises" and "promises ! k = Inl err"
  shows "Promise_all promises schedule \<noteq> Some (Inr vs)"
proof -
  have "blocked promises k (foldl (settleElement promises) (initial_join (length promises)) schedule)"
    using assms blocked_initial [OF assms(1)] by (rule blocked_foldl)
  then show ?thesis by (auto simp: Promise_all_def blocked_def)
qed

lemma rejected_step: "rejected j \<Longrightarrow> rejected (settleElement promises j i)"
  by (auto simp: rejected_def settleElement_def resolveElement_def settle_def Let_def
      split: option.splits sum.splits)

lemma rejected_foldl: "rejected j \<Longrightarrow> rejected (foldl (settleElement promises) j schedule)"
  by (induction schedule arbitrary: j) (auto intro: rejected_step)

lemma blocked_reject:
  assumes "blocked promises k j" and "k < length promises" and "promises ! k = Inl err"
  shows "rejected (settleElement promises j k)"
  using assms
  by (auto simp: rejected_def blocked_def settleElement_def settle_def split: option.splits sum.splits)

lemma Promise_all_rejected:
  assumes "k < length promises" and "promises ! k = Inl err" and "k \<in> set schedule"
  shows "\<exists>err'. Promise_all promises schedule = Some (Inl err')"
proof -
  from assms(3) obtain pre post where sch: "schedule = pre @ k # post"
    by (auto dest: split_list)
  let ?j = "foldl (settleElement promises) (initial_join (length promises)) pre"
  have "blocked promises k ?j"
    using assms(1,2) blocked_initial [OF assms(1)] by (rule blocked_foldl)
  then have "rejected (settleElement promises ?j k)"
    using assms(1,2) by (rule blocked_reject)
  then have "rejected (foldl (settleElement promises) (settleElement promises ?j k) post)"
    by (rule rejected_foldl)
  then show ?thesis
    by (auto simp: sch Promise_all_def rejected_def split: option.splits sum.splits)
qed

section \<open>Runs of the submit handler\<close>

lemma mutations_mutate: "mutations (mutate e input st) = mutations st @ [input]"
  by (simp add: mutate_def onSuccess_def onError_def reset_def Let_def split: sum.splits)

lemma onSubmit_failure:
  assumes "k < length (files st)"
    and "uploadFile e (uuidv4 e k) \<lparr>props_file = files st ! k, props_directory = ''products''\<rparr>
           = Inl err"
  shows "onSubmit e schedule st data =
           (let st2 = st\<lparr>loading := True,
                  uploads := uploads st
                    @ map (\<lambda>f. \<lparr>props_file = f, props_directory = ''products''\<rparr>) (files st)\<rparr>
            in case Promise_all
                 (map (\<lambda>(i, props). uploadFile e (uuidv4 e i) props)
                   (enumerate 0 (map (\<lambda>f. \<lparr>props_file = f, props_directory = ''products''\<rparr>) (files st))))
                 schedule of
                 None \<Rightarrow> Suspended st2
               | Some (Inl err') \<Rightarrow> Threw err' st2
               | Some (Inr urls) \<Rightarrow> Suspended st2)"
proof -
  let ?calls = "map (\<lambda>f. \<lparr>props_file = f, props_directory = ''products''\<rparr>) (files st)"
  let ?promises = "map (\<lambda>(i, props). uploadFile e (uuidv4 e i) props) (enumerate 0 ?calls)"
  have k: "k < length ?promises" using assms(1) by simp
  have "?promises ! k = Inl err" using assms by (simp add: nth_enumerate_eq)
  with k have "\<And>urls. Promise_all ?promises schedule \<noteq> Some (Inr urls)"
    by (rule Promise_all_never_fulfilled)
  moreover have "files st \<noteq> []" using assms(1) by auto
  ultimately show ?thesis
    by (auto simp: onSubmit_def Let_def split: option.splits sum.splits)
qed

lemma failing_upload:
  "uploadFile failing_env (uuidv4 failing_env 1)
     \<lparr>props_file = files demo_page ! 1, props_directory = ''products''\<rparr> = Inl StorageWriteError"
  by (simp add: demo_defs upload_defs)

lemma storageRef_without_dot:
  "CHR ''.'' \<notin> set (file_name (props_file props)) \<Longrightarrow>
   storageRef uuid props = props_directory props @ ''/'' @ uuid @ ''.'' @ file_name (props_file props)"
  by (simp add: storageRef_def interpolate_def string_split_without)

text \<open>
  What the path template adds to the identifier: the extension holds no dot, so the last dot
  of a path separates identifier and extension, and paths built in one directory from two
  different identifiers differ, whatever the two file names. Whether two calls draw
  different identifiers is the generator's matter, and which path a write is confirmed
  under is the store's.
\<close>

lemma storageRef_identifiers_differ:
  assumes "u1 \<noteq> u2"
  shows "storageRef u1 \<lparr>props_file = f1, props_directory = d\<rparr>
           \<noteq> storageRef u2 \<lparr>props_file = f2, props_directory = d\<rparr>"
proof
  let ?x1 = "last (string_split (CHR ''.'') (file_name f1))"
  let ?x2 = "last (string_split (CHR ''.'') (file_name f2))"
  assume "storageRef u1 \<lparr>props_file = f1, props_directory = d\<rparr>
            = storageRef u2 \<lparr>props_file = f2, props_directory = d\<rparr>"
  then have "u1 @ CHR ''.'' # ?x1 = u2 @ CHR ''.'' # ?x2"
    by (simp add: storageRef_def extension_eq)
  moreover have "CHR ''.'' \<notin> set ?x1" and "CHR ''.'' \<notin> set ?x2"
    by (rule last_string_split_free)+
  ultimately have "u1 = u2" by (metis last_sep_unique)
  with assms show False by simp
qed

section \<open>The claims\<close>

text \<open>
  C1. When one of the uploads issued by a submission fails, whatever the order in which the
  uploads settle, the create mutation is not called (the list of mutations sent is the one
  from before the submission) and the two form fields keep their values.
\<close>

theorem onSubmit_upload_failure_no_create:
  assumes "k < length (files st)"
    and "uploadFile e (uuidv4 e k) \<lparr>props_file = files st ! k, props_directory = ''products''\<rparr>
           = Inl err"
  shows "mutations (final (onSubmit e schedule st data)) = mutations st \<and>
         form (final (onSubmit e schedule st data)) = form st"
  by (simp add: onSubmit_failure [OF assms] Let_def split: option.splits sum.splits)

theorem onSubmit_upload_failure_no_create_witness:
  "mutations (final (onSubmit failing_env [0, 2, 1] demo_page demo_form)) = [] \<and>
   form (final (onSubmit failing_env [0, 2, 1] demo_page demo_form)) = demo_form"
proof -
  have k: "1 < length (files demo_page)" by (simp add: demo_defs)
  from onSubmit_upload_failure_no_create [OF k failing_upload, of "[0, 2, 1]" demo_form]
  show ?thesis by (simp add: demo_page_def)
qed

text \<open>
  C2. When every upload of a submission succeeds, the \<open>images\<close> sent to the create mutation
  are the URLs in the order of the selected files, whatever the order in which the uploads
  settle: the schedule is any list that reaches every upload. The run below has three files
  of which the second settles first.
\<close>

theorem onSubmit_images_in_selection_order:
  assumes "files st \<noteq> []"
    and "length urls = length (files st)"
    and "\<And>i. i < length (files st) \<Longrightarrow>
           uploadFile e (uuidv4 e i) \<lparr>props_file = files st ! i, props_directory = ''products''\<rparr>
             = Inr (urls ! i)"
    and "{..<length (files st)} \<subseteq> set schedule"
  shows "\<exists>st'. onSubmit e schedule st data = Returned st' \<and>
           mutations st' = mutations st @
             [\<lparr>name = field_name data, description = field_description data, images = urls\<rparr>]"
proof -
  let ?calls = "map (\<lambda>f. \<lparr>props_file = f, props_directory = ''products''\<rparr>) (files st)"
  let ?promises = "map (\<lambda>(i, props). uploadFile e (uuidv4 e i) props) (enumerate 0 ?calls)"
  have "?promises = map Inr urls"
    by (rule nth_equalityI) (use assms(2,3) in \<open>simp_all add: nth_enumerate_eq\<close>)
  moreover have "{..<length urls} \<subseteq> set schedule" using assms(2,4) by simp
  ultimately have "Promise_all ?promises schedule = Some (Inr urls)"
    by (simp add: Promise_all_fulfilled)
  then show ?thesis using assms(1)
    by (simp add: onSubmit_def Let_def mutations_mutate)
qed

theorem onSubmit_images_in_selection_order_witness:
  "mutations (final (onSubmit demo_env [1, 0, 2] demo_page demo_form)) =
     [\<lparr>name = ''Bicicleta'', description = ''Casi nueva'',
       images = [''https://storage.googleapis.com/bucket/products/id-.png'',
                 ''https://storage.googleapis.com/bucket/products/id-x.png'',
                 ''https://storage.googleapis.com/bucket/products/id-xx.jpeg'']\<rparr>]"
proof -
  let ?urls = "[''https://storage.googleapis.com/bucket/products/id-.png'',
                 ''https://storage.googleapis.com/bucket/products/id-x.png'',
                 ''https://storage.googleapis.com/bucket/products/id-xx.jpeg'']"
  have 1: "files demo_page \<noteq> []" by (simp add: demo_defs)
  have 2: "length ?urls = length (files demo_page)" by (simp add: demo_defs)
  have 3: "uploadFile demo_env (uuidv4 demo_env i)
             \<lparr>props_file = files demo_page ! i, props_directory = ''products''\<rparr> = Inr (?urls ! i)"
    if "i < length (files demo_page)" for i
  proof -
    from that have "i = 0 \<or> i = 1 \<or> i = 2" by (auto simp: demo_defs)
    then show ?thesis by (auto simp: demo_defs upload_defs eval_nat_numeral)
  qed
  have 4: "{..<length (files demo_page)} \<subseteq> set [1, 0, 2]" by (auto simp: demo_defs)
  from onSubmit_images_in_selection_order [OF 1 2 3 4, of demo_form]
  show ?thesis by (auto simp: demo_page_def demo_form_def)
qed

text \<open>
  C3. The storage path of a file whose name has no dot. \<open>split(".")\<close> of such a name is
  the name itself as the only piece, and \<open>pop()\<close> returns it: the path ends in the
  identifier, a dot and the whole file name, not in an empty extension.
\<close>

theorem storageRef_without_dot_keeps_name:
  "storageRef ''id-x''
     \<lparr>props_file = \<lparr>file_name = ''README'', file_bytes = [1]\<rparr>, props_directory = ''products''\<rparr>
     = ''products/id-x.README'' \<and>
   uploadFile demo_env ''id-x''
     \<lparr>props_file = \<lparr>file_name = ''README'', file_bytes = [1]\<rparr>, props_directory = ''products''\<rparr>
     = Inr ''https://storage.googleapis.com/bucket/products/id-x.README''"
  by (simp add: demo_env_def upload_defs)

text \<open>
  C4. A submission of three files of which the store refuses the second: the handler's
  promise rejects with the storage error, no toast has been shown and \<open>loading\<close> is still
  set, where the failure of the create call shows a toast and clears the flag.
\<close>

theorem onSubmit_upload_failure_is_silent:
  "onSubmit failing_env [0, 2, 1] demo_page demo_form =
     Threw StorageWriteError
       (demo_page\<lparr>loading := True,
          uploads := map (\<lambda>f. \<lparr>props_file = f, props_directory = ''products''\<rparr>) demo_files\<rparr>) \<and>
   toasts (final (onSubmit failing_env [0, 2, 1] demo_page demo_form)) = [] \<and>
   loading (final (onSubmit failing_env [0, 2, 1] demo_page demo_form)) = True"
  by (simp add: onSubmit_def demo_defs upload_defs join_defs Let_def)

text \<open>
  C5. A submission with an empty file list returns at once: no upload is issued, no
  mutation is sent, the form shows the message asking for at least one image, and
  \<open>loading\<close> is cleared again.
\<close>

theorem onSubmit_without_files:
  assumes "files st = []"
  shows "\<exists>st'. onSubmit e schedule st data = Returned st' \<and>
           uploads st' = uploads st \<and> mutations st' = mutations st \<and>
           shown_fileError st' = Some ''Debes subir al menos una imagen'' \<and>
           loading st' = False"
  using assms by (simp add: onSubmit_def Let_def shown_fileError_def)

theorem onSubmit_without_files_witness:
  "shown_fileError (final (onSubmit demo_env [] (demo_page\<lparr>files := []\<rparr>) demo_form))
     = Some ''Debes subir al menos una imagen'' \<and>
   uploads (final (onSubmit demo_env [] (demo_page\<lparr>files := []\<rparr>) demo_form)) = [] \<and>
   mutations (final (onSubmit demo_env [] (demo_page\<lparr>files := []\<rparr>) demo_form)) = []"
proof -
  have "files (demo_page\<lparr>files := []\<rparr>) = []" by simp
  from onSubmit_without_files [OF this, of demo_env "[]" demo_form]
  show ?thesis by (auto simp: demo_page_def)
qed

text \<open>
  C6. When the session resolver finds no session, \<open>getServerSideProps\<close> of the new-product
  page and of the home page both return the redirect to \<open>/ingresar\<close> with
  \<open>permanent: false\<close>, and so no props.
\<close>

theorem unauthenticated_redirect:
  assumes "getServerAuthSession ctx = None"
  shows "getServerSideProps getServerAuthSession ctx
           = Redirect \<lparr>destination = ''/ingresar'', permanent = False\<rparr> \<and>
         home_getServerSideProps getServerAuthSession ctx
           = Redirect \<lparr>destination = ''/ingresar'', permanent = False\<rparr> \<and>
         (\<forall>props. getServerSideProps getServerAuthSession ctx \<noteq> Props props) \<and>
         (\<forall>props. home_getServerSideProps getServerAuthSession ctx \<noteq> Props props)"
  using assms by (simp add: getServerSideProps_def home_getServerSideProps_def)

theorem unauthenticated_redirect_witness:
  "getServerSideProps no_session ''/nuevo-producto''
     = Redirect \<lparr>destination = ''/ingresar'', permanent = False\<rparr> \<and>
   home_getServerSideProps no_session ''/nuevo-producto''
     = Redirect \<lparr>destination = ''/ingresar'', permanent = False\<rparr>"
proof -
  have "no_session ''/nuevo-producto'' = None" by (simp add: no_session_def)
  from unauthenticated_redirect [of no_session "''/nuevo-producto''", OF this]
  show ?thesis by simp
qed



text \<open>
  C8. When the remote create call succeeds, the mutation's callback empties the file list,
  resets the two form fields, shows the success toast, clears \<open>loading\<close> and pushes the
  route \<open>/mis-productos\<close> once.
\<close>

theorem mutate_success:
  assumes "create e input = Inr r"
  shows "files (mutate e input st) = [] \<and>
         form (mutate e input st) = \<lparr>field_name = [], field_description = []\<rparr> \<and>
         toasts (mutate e input st) = toasts st
           @ [Success (''Producto creado con '' @ [CHR 0xC3, CHR 0xA9] @ ''xito'')] \<and>
         pushed (mutate e input st) = pushed st @ [''/mis-productos''] \<and>
         loading (mutate e input st) = False"
  using assms by (simp add: mutate_def onSuccess_def reset_def Let_def)

theorem mutate_success_witness:
  "files (mutate demo_env \<lparr>name = ''Bicicleta'', description = ''Casi nueva'', images = [''u'']\<rparr> demo_page) = [] \<and>
   pushed (mutate demo_env \<lparr>name = ''Bicicleta'', description = ''Casi nueva'', images = [''u'']\<rparr> demo_page)
     = [''/mis-productos'']"
proof -
  have "create demo_env \<lparr>name = ''Bicicleta'', description = ''Casi nueva'', images = [''u'']\<rparr> = Inr ()"
    by (simp add: demo_env_def)
  from mutate_success [OF this, of demo_page] show ?thesis by (simp add: demo_page_def)
qed

text \<open>
  C10. When one of the uploads issued by a submission fails, the handler never returns:
  \<open>loading\<close>, set at the start, is still set in the state the run ends in, so the submit
  button shows as loading and the dropzone is disabled; and if the failing upload settles at
  all, the handler's promise rejects.
\<close>

theorem onSubmit_upload_failure_loading_stuck:
  assumes "k < length (files st)"
    and "uploadFile e (uuidv4 e k) \<lparr>props_file = files st ! k, props_directory = ''products''\<rparr>
           = Inl err"
  shows "(\<forall>st'. onSubmit e schedule st data \<noteq> Returned st') \<and>
         loading (final (onSubmit e schedule st data)) \<and>
         button_loading (final (onSubmit e schedule st data)) \<and>
         dropzone_disabled (final (onSubmit e schedule st data)) \<and>
         (k \<in> set schedule \<longrightarrow> (\<exists>err' st'. onSubmit e schedule st data = Threw err' st'))"
proof -
  let ?calls = "map (\<lambda>f. \<lparr>props_file = f, props_directory = ''products''\<rparr>) (files st)"
  let ?promises = "map (\<lambda>(i, props). uploadFile e (uuidv4 e i) props) (enumerate 0 ?calls)"
  have k: "k < length ?promises" using assms(1) by simp
  have f: "?promises ! k = Inl err" using assms by (simp add: nth_enumerate_eq)
  have "k \<in> set schedule \<Longrightarrow> \<exists>err'. Promise_all ?promises schedule = Some (Inl err')"
    using k f by (rule Promise_all_rejected)
  then show ?thesis
    by (auto simp: onSubmit_failure [OF assms] Let_def button_loading_def dropzone_disabled_def
        split: option.splits sum.splits)
qed

theorem onSubmit_upload_failure_loading_stuck_witness:
  "loading (final (onSubmit failing_env [0, 2, 1] demo_page demo_form)) \<and>
   button_loading (final (onSubmit failing_env [0, 2, 1] demo_page demo_form)) \<and>
   dropzone_disabled (final (onSubmit failing_env [0, 2, 1] demo_page demo_form)) \<and>
   (case onSubmit failing_env [0, 2, 1] demo_page demo_form of Threw _ _ \<Rightarrow> True | _ \<Rightarrow> False)"
proof -
  have k: "1 < length (files demo_page)" by (simp add: demo_defs)
  from onSubmit_upload_failure_loading_stuck [OF k failing_upload, of "[0, 2, 1]" demo_form]
  show ?thesis by auto
qed

end
